theory Spec2Isabelle
  imports Complex_Main
begin

section \<open>Tensors as lists\<close>

text \<open>
  A one-dimensional tensor is a list of reals, a two-dimensional tensor the list of its
  rows. The arithmetic is that of the real numbers: rounding of the 64-bit floats is not
  part of the model.
\<close>

type_synonym vec = "real list"
type_synonym mat = "real list list"

datatype error = AssertionError | RuntimeError | UnknownController

definition vec_add :: "vec \<Rightarrow> vec \<Rightarrow> vec" where
  "vec_add a b = map2 (+) a b"

definition vec_sub :: "vec \<Rightarrow> vec \<Rightarrow> vec" where
  "vec_sub a b = map2 (-) a b"

definition vec_mul :: "vec \<Rightarrow> vec \<Rightarrow> vec" where
  "vec_mul a b = map2 (*) a b"

definition vec_scale :: "real \<Rightarrow> vec \<Rightarrow> vec" where
  "vec_scale c a = map ((*) c) a"

definition dot :: "vec \<Rightarrow> vec \<Rightarrow> real" where
  "dot a b = sum_list (map2 (*) a b)"

definition norm1 :: "vec \<Rightarrow> real" where
  "norm1 a = sum_list (map abs a)"

definition ncols :: "mat \<Rightarrow> nat" where
  "ncols M = (case M of [] \<Rightarrow> 0 | r # _ \<Rightarrow> length r)"

text \<open>\<open>M @ v\<close> for a matrix and a vector.\<close>

definition mat_vec :: "mat \<Rightarrow> vec \<Rightarrow> vec" where
  "mat_vec M v = map (\<lambda>r. dot r v) M"

text \<open>\<open>v @ M\<close> for a (row) vector and a matrix: entry \<open>j\<close> is \<open>\<Sum>i. v[i] * M[i][j]\<close>.\<close>

definition vec_mat :: "vec \<Rightarrow> mat \<Rightarrow> vec" where
  "vec_mat v M = map (\<lambda>j. sum_list (map (\<lambda>i. v ! i * M ! i ! j) [0..<length M])) [0..<ncols M]"

text \<open>\<open>A @ M\<close> for two matrices, row by row.\<close>

definition mat_mat :: "mat \<Rightarrow> mat \<Rightarrow> mat" where
  "mat_mat A M = map (\<lambda>r. vec_mat r M) A"

definition eye :: "nat \<Rightarrow> mat" where
  "eye n = map (\<lambda>i. map (\<lambda>j. if i = j then 1 else 0) [0..<n]) [0..<n]"

definition diag :: "vec \<Rightarrow> mat" where
  "diag h = map (\<lambda>i. map (\<lambda>j. if i = j then h ! i else 0) [0..<length h]) [0..<length h]"

text \<open>\<open>t.repeat((n, 1))\<close>: the rows of \<open>t\<close>, \<open>n\<close> times over.\<close>

definition repeat_rows :: "nat \<Rightarrow> mat \<Rightarrow> mat" where
  "repeat_rows n M = concat (replicate n M)"

text \<open>\<open>t.repeat((1, n))\<close>: every row of \<open>t\<close> becomes \<open>n\<close> copies of itself, side by side.\<close>

definition repeat_cols :: "nat \<Rightarrow> mat \<Rightarrow> mat" where
  "repeat_cols n M = map (\<lambda>r. concat (replicate n r)) M"

text \<open>
  \<open>t.view((r, c))\<close> reads the entries of \<open>t\<close> in row-major order and cuts them into
  \<open>r\<close> rows of \<open>c\<close> entries; torch raises a RuntimeError when \<open>r * c\<close> is not the number
  of entries.
\<close>

fun view_rows :: "nat \<Rightarrow> nat \<Rightarrow> real list \<Rightarrow> mat" where
  "view_rows 0 c xs = []"
| "view_rows (Suc r) c xs = take c xs # view_rows r c (drop c xs)"

definition view :: "nat \<Rightarrow> nat \<Rightarrow> mat \<Rightarrow> error + mat" where
  "view r c M = (if r * c = length (concat M) then Inr (view_rows r c (concat M))
                 else Inl RuntimeError)"

text \<open>\<open>torch.min\<close> of a one-dimensional tensor; it raises on an empty one.\<close>

definition torch_min :: "real list \<Rightarrow> error + real" where
  "torch_min xs = (case xs of [] \<Rightarrow> Inl RuntimeError | y # ys \<Rightarrow> Inr (fold min ys y))"

section \<open>control\_lyapunov.py: the control Lyapunov derivative\<close>

text \<open>
  The control-affine system \<open>\<^bold>x' = f(x) + G(x) u\<close> with input bounds, as far as
  \<open>ControlLyapunov\<close> reads it. \<open>G x\<close> has \<open>x_dim\<close> rows and \<open>u_dim\<close> columns.
\<close>

record control_affine_system =
  x_dim :: nat
  u_dim :: nat
  u_lo :: vec
  u_up :: vec
  f :: "vec \<Rightarrow> vec"
  G :: "vec \<Rightarrow> mat"

text \<open>
  The Lyapunov network \<open>\<phi>\<close>. Its evaluation and \<open>utils.relu_network_gradient\<close> are
  not among the sources at hand, so a network is given by what the two return: the value
  at \<open>x\<close> and the list of its gradients at \<open>x\<close> (one row per gradient, several rows where
  some unit sits at its kink).
\<close>

record relu_network =
  forward :: "vec \<Rightarrow> real"
  relu_network_gradient :: "vec \<Rightarrow> mat"

text \<open>
  Modelled from the spec: \<open>utils.l1_gradient\<close> is missing from the sources. The spec has
  it return every combination of sign choices at the arguments that are exactly zero; an
  argument that is not zero contributes its sign.
\<close>

fun l1_gradient :: "vec \<Rightarrow> mat" where
  "l1_gradient [] = [[]]"
| "l1_gradient (a # as) =
     (if a > 0 then map ((#) 1) (l1_gradient as)
      else if a < 0 then map ((#) (- 1)) (l1_gradient as)
      else map ((#) 1) (l1_gradient as) @ map ((#) (- 1)) (l1_gradient as))"

text \<open>
  Modelled from the spec: \<open>lyapunov._get_R\<close> is missing from the sources; the docstring
  of \<open>lyapunov_derivative\<close> says the identity matrix is used if \<open>R\<close> is \<open>None\<close>.
\<close>

definition get_R :: "mat option \<Rightarrow> nat \<Rightarrow> mat" where
  "get_R R n = (case R of None \<Rightarrow> eye n | Some M \<Rightarrow> M)"

text \<open>
  Modelled from the spec: \<open>lyapunov_value\<close> is inherited from a class that is missing from
  the sources. The docstring of \<open>ControlLyapunov\<close> gives
  \<open>V(x) = \<phi>(x) - \<phi>(x*) + \<lambda> |R (x - x*)|\<^sub>1\<close>.
\<close>

definition lyapunov_value :: "relu_network \<Rightarrow> vec \<Rightarrow> vec \<Rightarrow> real \<Rightarrow> mat \<Rightarrow> real" where
  "lyapunov_value net x x_equilibrium V_lambda R =
     forward net x - forward net x_equilibrium
       + V_lambda * norm1 (mat_vec R (vec_sub x x_equilibrium))"

text \<open>
  \<open>ControlLyapunov.lyapunov_derivative\<close>, statement by statement. \<open>Vdot\<close> has one entry
  per row of \<open>dVdx\<close>.
\<close>

definition lyapunov_derivative ::
  "control_affine_system \<Rightarrow> relu_network \<Rightarrow> vec \<Rightarrow> vec \<Rightarrow> real \<Rightarrow> real \<Rightarrow> mat option
    \<Rightarrow> error + real" where
  "lyapunov_derivative sys net x x_equilibrium V_lambda epsilon R0 =
     (if length x \<noteq> x_dim sys then Inl AssertionError
      else
        let R = get_R R0 (x_dim sys);
            dphi_dx = relu_network_gradient net x;
            dl1_dx = mat_mat (map (vec_scale V_lambda)
                       (l1_gradient (mat_vec R (vec_sub x x_equilibrium)))) R
        in case view (length dphi_dx * length dl1_dx) (x_dim sys)
                  (repeat_cols (length dphi_dx) dl1_dx) of
             Inl e \<Rightarrow> Inl e
           | Inr dl1_rep \<Rightarrow>
               let dVdx = map2 vec_add (repeat_rows (length dl1_dx) dphi_dx) dl1_rep;
                   Gx = G sys x;
                   dVdx_G = mat_mat dVdx Gx;
                   u_mid = map (\<lambda>s. s / 2) (vec_add (u_lo sys) (u_up sys));
                   u_half = map (\<lambda>s. s / 2) (vec_sub (u_up sys) (u_lo sys));
                   Vdot = map2 (-)
                            (vec_add (mat_vec dVdx (f sys x)) (mat_vec dVdx_G u_mid))
                            (map norm1
                               (map2 vec_mul dVdx_G (repeat_rows (length dVdx) [u_half])));
                   V = lyapunov_value net x x_equilibrium V_lambda R
               in (case torch_min Vdot of
                     Inl e \<Rightarrow> Inl e
                   | Inr m \<Rightarrow> Inr (m + epsilon * V)))"

subsection \<open>The claimed value, in the words of the specification\<close>

text \<open>
  The Minkowski sum of two sets of gradients: every member of the one added to every
  member of the other.
\<close>

definition minkowski_sum :: "vec set \<Rightarrow> vec set \<Rightarrow> vec set" where
  "minkowski_sum A B = {vec_add a b | a b. a \<in> A \<and> b \<in> B}"

text \<open>
  Every sign choice for a vector: the sign of an entry that is not zero, and either sign
  for an entry that is exactly zero.
\<close>

definition sign_choices :: "vec \<Rightarrow> vec set" where
  "sign_choices v = {s. length s = length v \<and>
     (\<forall>i < length v. if v ! i > 0 then s ! i = 1
                       else if v ! i < 0 then s ! i = - 1
                       else s ! i = 1 \<or> s ! i = - 1)}"

text \<open>
  The subgradients of \<open>\<lambda> |R (x - x*)|\<^sub>1\<close>: \<open>\<lambda> \<Sum>i. sign(R[i, :] (x - x*)) R[i, :]\<close>, one for
  every sign choice.
\<close>

definition l1_subgradients :: "real \<Rightarrow> mat \<Rightarrow> vec \<Rightarrow> vec \<Rightarrow> vec set" where
  "l1_subgradients V_lambda R x x_equilibrium =
     (\<lambda>s. vec_scale V_lambda (vec_mat s R)) ` sign_choices (mat_vec R (vec_sub x x_equilibrium))"

text \<open>
  The closed form of the worst-case derivative for one gradient \<open>dVdx\<close>:
  \<open>dVdx \<cdot> f(x) + dVdx \<cdot> G(x) \<cdot> (u_lo + u_up) / 2 - |dVdx \<cdot> G(x) \<cdot> diag((u_up - u_lo) / 2)|\<^sub>1\<close>.
\<close>

definition worst_case_Vdot :: "control_affine_system \<Rightarrow> vec \<Rightarrow> vec \<Rightarrow> real" where
  "worst_case_Vdot sys x dVdx =
     dot dVdx (f sys x)
       + dot (vec_mat dVdx (G sys x)) (map (\<lambda>s. s / 2) (vec_add (u_lo sys) (u_up sys)))
       - norm1 (vec_mat (vec_mat dVdx (G sys x))
                  (diag (map (\<lambda>s. s / 2) (vec_sub (u_up sys) (u_lo sys)))))"

subsection \<open>A system and a network to run the model on\<close>

definition example_system :: control_affine_system where
  "example_system = \<lparr> x_dim = 2, u_dim = 1, u_lo = [- 1], u_up = [3],
      f = (\<lambda>x. [x ! 1, - (x ! 0)]), G = (\<lambda>x. [[0], [1]]) \<rparr>"

text \<open>The network \<open>\<phi>(x) = max(0, x[0])\<close>, with both gradients at its kink.\<close>

definition example_network :: relu_network where
  "example_network = \<lparr> forward = (\<lambda>x. max 0 (x ! 0)),
      relu_network_gradient = (\<lambda>x. if x ! 0 > 0 then [[1, 0]]
                                     else if x ! 0 < 0 then [[0, 0]]
                                     else [[0, 0], [1, 0]]) \<rparr>"

section \<open>The control Lyapunov derivative is the minimum over all subgradients\<close>

lemma view_rows_concat:
  "\<forall>r \<in> set Q. length r = c \<Longrightarrow> view_rows (length Q) c (concat Q) = Q"
  by (induction Q) auto

lemma concat_repeat_cols:
  "concat (repeat_cols n L) = concat (concat (map (replicate n) L))"
  by (induction L) (auto simp: repeat_cols_def)

lemma length_concat_const:
  "\<forall>r \<in> set Q. length r = c \<Longrightarrow> length (concat Q) = length Q * c"
  by (induction Q) auto

lemma view_repeat_cols:
  assumes "\<forall>r \<in> set L. length r = c"
  shows "view (n * length L) c (repeat_cols n L) = Inr (concat (map (replicate n) L))"
proof -
  let ?Q = "concat (map (replicate n) L)"
  have rows: "\<forall>r \<in> set ?Q. length r = c" using assms by auto
  have len: "length ?Q = n * length L" by (induction L) auto
  have "length (concat ?Q) = length ?Q * c" using rows by (rule length_concat_const)
  then show ?thesis
    using view_rows_concat[OF rows] len
    by (simp add: view_def concat_repeat_cols)
qed

lemma zip_repeat_rows:
  "map2 h (repeat_rows (length L) P) (concat (map (replicate (length P)) L))
     = concat (map (\<lambda>l. map (\<lambda>p. h p l) P) L)"
proof (induction L)
  case Nil
  then show ?case by (simp add: repeat_rows_def)
next
  case (Cons l L)
  have "map2 h P (replicate (length P) l) = map (\<lambda>p. h p l) P"
    by (induction P) auto
  with Cons show ?case by (simp add: repeat_rows_def)
qed

lemma fold_min_Min: "fold min ys (y::real) = Min (set (y # ys))"
  using Min.set_eq_fold[of y ys] by simp

lemma length_diag: "length (diag h) = length h"
  by (simp add: diag_def)

lemma ncols_diag: "ncols (diag h) = length h"
proof (cases h)
  case Nil
  then show ?thesis by (simp add: ncols_def diag_def)
next
  case (Cons a as)
  then have p: "0 < length h" by simp
  show ?thesis unfolding ncols_def diag_def upt_conv_Cons[OF p] using p by simp
qed

lemma nth_diag:
  "i < length h \<Longrightarrow> j < length h \<Longrightarrow> diag h ! i ! j = (if i = j then h ! i else 0)"
  by (simp add: diag_def)

lemma length_vec_mat: "length (vec_mat v M) = ncols M"
  by (simp add: vec_mat_def)

lemma vec_mat_diag:
  assumes "length v = length h"
  shows "vec_mat v (diag h) = vec_mul v h"
proof (rule nth_equalityI)
  show "length (vec_mat v (diag h)) = length (vec_mul v h)"
    using assms by (simp add: length_vec_mat ncols_diag vec_mul_def)
next
  fix j assume "j < length (vec_mat v (diag h))"
  then have j: "j < length h" by (simp add: length_vec_mat ncols_diag)
  have "sum_list (map (\<lambda>i. v ! i * diag h ! i ! j) [0..<length h])
      = (\<Sum>i\<in>{0..<length h}. v ! i * diag h ! i ! j)"
    by (simp add: interv_sum_list_conv_sum_set_nat)
  also have "\<dots> = (\<Sum>i\<in>{0..<length h}. if i = j then v ! j * h ! j else 0)"
    using j by (intro sum.cong) (auto simp: nth_diag)
  also have "\<dots> = v ! j * h ! j" using j by simp
  finally show "vec_mat v (diag h) ! j = vec_mul v h ! j"
    using j assms by (simp add: vec_mat_def ncols_diag length_diag vec_mul_def)
qed

lemma vec_mat_scale:
  assumes "length s = length R"
  shows "vec_mat (vec_scale c s) R = vec_scale c (vec_mat s R)"
proof (rule nth_equalityI)
  show "length (vec_mat (vec_scale c s) R) = length (vec_scale c (vec_mat s R))"
    by (simp add: length_vec_mat vec_scale_def)
next
  fix j assume "j < length (vec_mat (vec_scale c s) R)"
  then have j: "j < ncols R" by (simp add: length_vec_mat)
  have eq: "map (\<lambda>i. vec_scale c s ! i * R ! i ! j) [0..<length R]
      = map (\<lambda>i. c * (s ! i * R ! i ! j)) [0..<length R]"
    using assms by (intro map_cong) (auto simp: vec_scale_def)
  have "vec_mat (vec_scale c s) R ! j
      = sum_list (map (\<lambda>i. vec_scale c s ! i * R ! i ! j) [0..<length R])"
    using j by (simp add: vec_mat_def)
  also have "\<dots> = sum_list (map (\<lambda>i. c * (s ! i * R ! i ! j)) [0..<length R])"
    by (simp only: eq)
  also have "\<dots> = c * sum_list (map (\<lambda>i. s ! i * R ! i ! j) [0..<length R])"
    by (simp add: sum_list_const_mult)
  also have "\<dots> = vec_scale c (vec_mat s R) ! j"
    using j by (simp add: vec_mat_def vec_scale_def)
  finally show "vec_mat (vec_scale c s) R ! j = vec_scale c (vec_mat s R) ! j" .
qed

lemma sign_choices_Nil: "sign_choices [] = {[]}"
  by (auto simp: sign_choices_def)

lemma sign_choices_Cons:
  "sign_choices (a # as) =
     (if a > 0 then (#) 1 ` sign_choices as
      else if a < 0 then (#) (- 1) ` sign_choices as
      else (#) 1 ` sign_choices as \<union> (#) (- 1) ` sign_choices as)"
proof -
  have split: "\<And>s. s \<in> sign_choices (a # as) \<longleftrightarrow>
      (\<exists>b t. s = b # t \<and> t \<in> sign_choices as \<and>
         (if a > 0 then b = 1 else if a < 0 then b = - 1 else b = 1 \<or> b = - 1))"
  proof -
    fix s
    show "s \<in> sign_choices (a # as) \<longleftrightarrow>
      (\<exists>b t. s = b # t \<and> t \<in> sign_choices as \<and>
         (if a > 0 then b = 1 else if a < 0 then b = - 1 else b = 1 \<or> b = - 1))"
    proof (cases s)
      case Nil
      then show ?thesis by (simp add: sign_choices_def)
    next
      case (Cons b t)
      then show ?thesis
        unfolding sign_choices_def
        by (auto simp: All_less_Suc2)
    qed
  qed
  show ?thesis
    by (rule set_eqI) (auto simp: split)
qed

lemma set_l1_gradient: "set (l1_gradient v) = sign_choices v"
  by (induction v) (simp_all add: sign_choices_Nil sign_choices_Cons image_Un)

lemma map2_same: "map2 g (map a xs) (map b xs) = map (\<lambda>x. g (a x) (b x)) xs"
  by (induction xs) auto

lemma map2_repeat_const:
  "map2 g xs (repeat_rows (length xs) [c]) = map (\<lambda>x. g x c) xs"
  by (induction xs) (auto simp: repeat_rows_def)

lemma torch_min_Min: "xs \<noteq> [] \<Longrightarrow> torch_min xs = Inr (Min (set xs))"
  by (cases xs) (simp_all add: torch_min_def fold_min_Min)

lemma l1_gradient_nonempty: "l1_gradient v \<noteq> []"
  by (induction v) auto

lemma set_minkowski_rows:
  "set (concat (map (\<lambda>l. map (\<lambda>p. vec_add p l) P) L)) = minkowski_sum (set P) (set L)"
  by (auto simp: minkowski_sum_def)

text \<open>
  C7: \<open>lyapunov_derivative\<close> returns the minimum, over the full Minkowski sum of the
  gradients of \<open>\<phi>\<close> at \<open>x\<close> and the subgradients of the 1-norm term (one per sign
  choice), of the closed-form worst-case derivative, plus \<open>\<epsilon> V(x)\<close>. The hypotheses say
  that the tensors have the shapes the class works with.
\<close>

theorem lyapunov_derivative_min_over_minkowski_sum:
  assumes x: "length x = x_dim sys"
    and R: "ncols (get_R R0 (x_dim sys)) = x_dim sys"
    and P: "relu_network_gradient net x \<noteq> []"
    and Gx: "ncols (G sys x) = u_dim sys"
    and lo: "length (u_lo sys) = u_dim sys"
    and up: "length (u_up sys) = u_dim sys"
  shows "lyapunov_derivative sys net x x_equilibrium V_lambda epsilon R0 =
     Inr (Min (worst_case_Vdot sys x `
            minkowski_sum (set (relu_network_gradient net x))
              (l1_subgradients V_lambda (get_R R0 (x_dim sys)) x x_equilibrium))
          + epsilon * lyapunov_value net x x_equilibrium V_lambda (get_R R0 (x_dim sys)))"
proof -
  define Rm where "Rm = get_R R0 (x_dim sys)"
  define Pm where "Pm = relu_network_gradient net x"
  define v where "v = mat_vec Rm (vec_sub x x_equilibrium)"
  define L where "L = mat_mat (map (vec_scale V_lambda) (l1_gradient v)) Rm"
  define uh where "uh = map (\<lambda>s. s / 2) (vec_sub (u_up sys) (u_lo sys))"
  define um where "um = map (\<lambda>s. s / 2) (vec_add (u_lo sys) (u_up sys))"
  define dVdx where "dVdx = concat (map (\<lambda>l. map (\<lambda>p. vec_add p l) Pm) L)"
  have Lrows: "\<forall>r \<in> set L. length r = x_dim sys"
    using R by (auto simp: L_def mat_mat_def length_vec_mat Rm_def)
  have view: "view (length Pm * length L) (x_dim sys) (repeat_cols (length Pm) L)
      = Inr (concat (map (replicate (length Pm)) L))"
    using Lrows by (rule view_repeat_cols)
  have dV: "map2 vec_add (repeat_rows (length L) Pm) (concat (map (replicate (length Pm)) L)) = dVdx"
    unfolding dVdx_def by (rule zip_repeat_rows)
  have uhlen: "length uh = u_dim sys" using lo up by (simp add: uh_def vec_sub_def)
  have cf: "\<And>r. dot r (f sys x) + dot (vec_mat r (G sys x)) um
       - norm1 (vec_mul (vec_mat r (G sys x)) uh) = worst_case_Vdot sys x r"
    using Gx uhlen
    by (simp add: worst_case_Vdot_def um_def uh_def[symmetric] vec_mat_diag length_vec_mat)
  have Vdot: "map2 (-) (vec_add (mat_vec dVdx (f sys x)) (mat_vec (mat_mat dVdx (G sys x)) um))
         (map norm1 (map2 vec_mul (mat_mat dVdx (G sys x)) (repeat_rows (length dVdx) [uh])))
       = map (worst_case_Vdot sys x) dVdx"
  proof -
    have "map2 vec_mul (mat_mat dVdx (G sys x)) (repeat_rows (length dVdx) [uh])
        = map (\<lambda>r. vec_mul (vec_mat r (G sys x)) uh) dVdx"
      using map2_repeat_const[of vec_mul "mat_mat dVdx (G sys x)" uh]
      by (simp add: mat_mat_def)
    then show ?thesis
      by (simp add: mat_vec_def vec_add_def mat_mat_def map2_same cf o_def)
  qed
  have Lne: "L \<noteq> []" using l1_gradient_nonempty by (simp add: L_def mat_mat_def)
  have dVne: "map (worst_case_Vdot sys x) dVdx \<noteq> []"
    using P Lne by (cases L; cases Pm) (auto simp: dVdx_def Pm_def)
  have setL: "set L = l1_subgradients V_lambda Rm x x_equilibrium"
  proof -
    have "\<And>s. s \<in> sign_choices v \<Longrightarrow> vec_mat (vec_scale V_lambda s) Rm = vec_scale V_lambda (vec_mat s Rm)"
      by (rule vec_mat_scale) (simp add: sign_choices_def v_def mat_vec_def)
    then show ?thesis
      by (auto simp: L_def mat_mat_def l1_subgradients_def set_l1_gradient v_def[symmetric] image_iff)
  qed
  have setV: "set (map (worst_case_Vdot sys x) dVdx)
      = worst_case_Vdot sys x ` minkowski_sum (set Pm) (l1_subgradients V_lambda Rm x x_equilibrium)"
    by (simp add: dVdx_def set_minkowski_rows setL del: set_concat)
  show ?thesis
    unfolding lyapunov_derivative_def Let_def Rm_def[symmetric] Pm_def[symmetric] v_def[symmetric]
      L_def[symmetric] uh_def[symmetric] um_def[symmetric] view sum.case dV Vdot
      torch_min_Min[OF dVne] setV
    using x by simp
qed

theorem lyapunov_derivative_min_over_minkowski_sum_witness:
  "length [0, 1 :: real] = x_dim example_system
   \<and> ncols (get_R None (x_dim example_system)) = x_dim example_system
   \<and> relu_network_gradient example_network [0, 1] \<noteq> []
   \<and> ncols (G example_system [0, 1]) = u_dim example_system
   \<and> length (u_lo example_system) = u_dim example_system
   \<and> length (u_up example_system) = u_dim example_system
   \<and> lyapunov_derivative example_system example_network [0, 1] [0, 0] (1 / 2) (1 / 10) None
        = Inr (- 19 / 20)
   \<and> Min (worst_case_Vdot example_system [0, 1] `
            minkowski_sum (set (relu_network_gradient example_network [0, 1]))
              (l1_subgradients (1 / 2) (get_R None (x_dim example_system)) [0, 1] [0, 0]))
        + (1 / 10) * lyapunov_value example_network [0, 1] [0, 0] (1 / 2)
                       (get_R None (x_dim example_system))
        = - 19 / 20"
proof -
  have h1: "length [0, 1 :: real] = x_dim example_system"
    by (simp add: example_system_def)
  have h2: "ncols (get_R None (x_dim example_system)) = x_dim example_system"
    by (simp add: example_system_def get_R_def eye_def ncols_def upt_rec)
  have h3: "relu_network_gradient example_network [0, 1] \<noteq> []"
    by (simp add: example_network_def)
  have h4: "ncols (G example_system [0, 1]) = u_dim example_system"
    by (simp add: example_system_def ncols_def)
  have h5: "length (u_lo example_system) = u_dim example_system"
    by (simp add: example_system_def)
  have h6: "length (u_up example_system) = u_dim example_system"
    by (simp add: example_system_def)
  have run: "lyapunov_derivative example_system example_network [0, 1] [0, 0] (1 / 2) (1 / 10) None
      = Inr (- 19 / 20)"
    by code_simp
  show ?thesis
    using lyapunov_derivative_min_over_minkowski_sum [OF h1 h2 h3 h4 h5 h6, of "[0, 0]" "1 / 2" "1 / 10"]
      h1 h2 h3 h4 h5 h6 run
    by simp
qed

end
